theory Spec2Isabelle
  imports Main
begin

section \<open>Data model of the \<^verbatim>\<open>inspeqtor\<close> package (types.go)\<close>

text \<open>
  The packages \<^verbatim>\<open>services\<close>, \<^verbatim>\<open>metrics\<close> and \<^verbatim>\<open>util\<close>, the
  types \<^verbatim>\<open>Rule\<close>, \<^verbatim>\<open>Action\<close>, \<^verbatim>\<open>Event\<close> and \<^verbatim>\<open>EventType\<close>
  are used by types.go and declared elsewhere.  Their data is modelled here from the way
  types.go uses it; their behaviour is a parameter of every operation (the record
  \<open>ext\<close> below).
\<close>

text \<open>
  Modelled from the spec: \<^verbatim>\<open>services.Status\<close>, the lifecycle state of a process:
  Unknown, Starting, Up or Down.
\<close>

datatype Status = Unknown | Starting | Up | Down

text \<open>
  \<^verbatim>\<open>services.ProcessStatus\<close>.  types.go builds one positionally as
  \<^verbatim>\<open>ProcessStatus{0, services.Down}\<close> and reads \<^verbatim>\<open>.Pid\<close> and \<^verbatim>\<open>.Status\<close>.
\<close>

record ProcessStatus =
  Pid :: int
  Status :: Status

text \<open>
  Go's \<^verbatim>\<open>error\<close> values as Resolve tells them apart: the sentinel
  \<^verbatim>\<open>services.ErrServiceNotFound\<close>, a \<^verbatim>\<open>*services.ServiceError\<close> wrapping
  another error in its field \<^verbatim>\<open>Err\<close>, and an error of any other dynamic type
  (\<^verbatim>\<open>errors.New(msg)\<close>).
\<close>

datatype error =
    ErrServiceNotFound
  | ErrorString string
  | ServiceError (Err: error)

text \<open>
  The collaborators are interface values and pointers: handles.  A nil interface value
  is \<open>None\<close> wherever types.go tests for nil.
\<close>

type_synonym InitSystem = nat
type_synonym Action = nat

text \<open>\<^verbatim>\<open>*metrics.Storage\<close>, by the constructor call that made it.\<close>

datatype Storage = NewHostStore nat | NewProcessStore

text \<open>A \<^verbatim>\<open>*Rule\<close>: its identity (which decides what Check answers) and its Actions.\<close>

record Rule =
  rule_id :: nat
  Actions :: "Action list"

text \<open>
  \<^verbatim>\<open>Entity\<close>.  A nil slice of rules is the empty list; a nil map of parameters is
  \<open>None\<close>.
\<close>

record Entity =
  name :: string
  rules :: "Rule list"
  metrics :: Storage
  parameters :: "(string \<rightharpoonup> string) option"

text \<open>
  \<^verbatim>\<open>Service\<close> embeds \<^verbatim>\<open>*Entity\<close>: the record extension gives it Entity's fields
  and methods, as Go's embedding does.  \<^verbatim>\<open>Manager\<close> is an interface value, nil until
  Resolve binds it.  The embedded Entity, \<^verbatim>\<open>Process\<close> and \<^verbatim>\<open>EventHandler\<close> are
  never tested for nil in types.go and are taken as set.  \<^verbatim>\<open>Host\<close> embeds
  \<^verbatim>\<open>*Entity\<close> and adds nothing.
\<close>

record Service = Entity +
  EventHandler :: Action
  Process :: ProcessStatus
  Manager :: "InitSystem option"

type_synonym Host = Entity

datatype Checkable = CHost Host | CService Service

text \<open>
  Modelled from the spec: \<^verbatim>\<open>EventType\<close>, the two process events, and \<^verbatim>\<open>Event\<close>,
  built in types.go as \<^verbatim>\<open>&Event{et, svc, nil}\<close>: type, source and a third field that
  is nil for process events.
\<close>

datatype EventType = ProcessExists | ProcessDoesNotExist

datatype Event = Event EventType Checkable "Rule option"

section \<open>Entity accessors\<close>

definition Name :: "'a Entity_scheme \<Rightarrow> string" where
  "Name e = name e"

definition Rules :: "'a Entity_scheme \<Rightarrow> Rule list" where
  "Rules e = rules e"

text \<open>Reading a nil map, or a key the map lacks, gives Go's zero value: the empty string.\<close>

definition Parameter :: "'a Entity_scheme \<Rightarrow> string \<Rightarrow> string" where
  "Parameter e key =
     (case parameters e of
        None \<Rightarrow> ''''
      | Some m \<Rightarrow> (case m key of None \<Rightarrow> '''' | Some v \<Rightarrow> v))"

definition Parameters :: "'a Entity_scheme \<Rightarrow> (string \<rightharpoonup> string) option" where
  "Parameters e = parameters e"

definition Owner :: "'a Entity_scheme \<Rightarrow> string" where
  "Owner e = Parameter e ''owner''"

definition Metrics :: "'a Entity_scheme \<Rightarrow> Storage" where
  "Metrics e = metrics e"

definition NewHost :: Host where
  "NewHost = \<lparr>name = ''localhost'', rules = [], metrics = NewHostStore 15, parameters = None\<rparr>"

text \<open>
  A Service before Resolve, as \<^verbatim>\<open>NewService("web")\<close> and the configuration leave it:
  no rules, no parameters, the Action 9 as its EventHandler, the initial Process Status
  (by the spec Unknown; pid 0) and no Manager.
\<close>

definition web :: Service where
  "web =
     \<lparr>name = ''web'', rules = [], metrics = NewProcessStore, parameters = None,
      EventHandler = 9, Process = \<lparr>Pid = 0, Status = Unknown\<rparr>, Manager = None\<rparr>"

section \<open>The collaborators\<close>

text \<open>
  The world outside the package (the init systems, /proc, the log, the handlers of
  events) is a state of type \<open>'w\<close> that every call to a collaborator may read and
  change.  What the collaborators do is the record \<open>ext\<close>, an argument of every
  operation: one field per external function or interface method types.go calls.
\<close>

text \<open>
  A panic: the function does not return; what it changed before stays changed.
\<close>

datatype 'a outcome = Returns 'a | Panics

text \<open>The arguments of a formatted log call.\<close>

datatype logarg = ArgString string | ArgInt int | ArgError error | ArgStatus ProcessStatus

text \<open>
  \<open>InitName\<close>, \<open>LookupService\<close> and \<open>RestartService\<close> are the methods Name,
  LookupService and Restart of an init system; \<open>CollectProcess\<close> and \<open>CollectHost\<close>
  are the functions of package metrics; \<open>Kill\<close> is \<^verbatim>\<open>syscall.Kill\<close>; \<open>Check\<close> is
  the method of a Rule and \<open>Trigger\<close> the method of an Action; \<open>Warn\<close>, \<open>Info\<close>,
  \<open>Debug\<close> and \<open>DebugDebug\<close> are the log functions of package util, with their
  format and arguments; \<open>ErrorText\<close> is the method Error of an error.  \<open>Spawn\<close> is
  the \<^verbatim>\<open>go\<close> statement: it hands a goroutine to the runtime, which runs it when it
  wants, on the Service as it is then.
\<close>

record 'w ext =
  InitName :: "InitSystem \<Rightarrow> string"
  LookupService :: "InitSystem \<Rightarrow> string \<Rightarrow> 'w \<Rightarrow> (error + ProcessStatus) \<times> 'w"
  RestartService :: "InitSystem \<Rightarrow> string \<Rightarrow> 'w \<Rightarrow> error option \<times> 'w"
  CollectProcess :: "Storage \<Rightarrow> string \<Rightarrow> int \<Rightarrow> 'w \<Rightarrow> error option \<times> 'w"
  CollectHost :: "Storage \<Rightarrow> string \<Rightarrow> 'w \<Rightarrow> error option \<times> 'w"
  Kill :: "int \<Rightarrow> int \<Rightarrow> 'w \<Rightarrow> error option \<times> 'w"
  Check :: "Rule \<Rightarrow> 'w \<Rightarrow> Event option \<times> 'w"
  Trigger :: "Action \<Rightarrow> Event \<Rightarrow> 'w \<Rightarrow> 'w"
  Warn :: "string \<Rightarrow> logarg list \<Rightarrow> 'w \<Rightarrow> 'w"
  Info :: "string \<Rightarrow> logarg list \<Rightarrow> 'w \<Rightarrow> 'w"
  Debug :: "string \<Rightarrow> logarg list \<Rightarrow> 'w \<Rightarrow> 'w"
  DebugDebug :: "string \<Rightarrow> logarg list \<Rightarrow> 'w \<Rightarrow> 'w"
  ErrorText :: "error \<Rightarrow> string"
  Spawn :: "(Service \<Rightarrow> 'w \<Rightarrow> unit outcome \<times> 'w) \<Rightarrow> 'w \<Rightarrow> 'w"

section \<open>Transition\<close>

text \<open>
  The emitter is a callback.  The closures types.go passes capture the pointer
  \<^verbatim>\<open>svc\<close>, so they see the Service as it is when they are called: the callback
  takes that state as an argument.
\<close>

definition Transition ::
  "Service \<Rightarrow> ProcessStatus \<Rightarrow> (EventType \<Rightarrow> Service \<Rightarrow> 'w \<Rightarrow> 'w) \<Rightarrow> 'w \<Rightarrow> Service \<times> 'w" where
  "Transition s ps emitter w =
     (let oldst = Status (Process s);
          s' = s\<lparr>Process := ps\<rparr>
      in case Status ps of
           Up \<Rightarrow> (if oldst \<noteq> Unknown then (s', emitter ProcessExists s' w) else (s', w))
         | Down \<Rightarrow> (s', emitter ProcessDoesNotExist s' w)
         | _ \<Rightarrow> (s', w))"

text \<open>
  The closure of Resolve and Collect:
  \<^verbatim>\<open>func(et EventType) { svc.EventHandler.Trigger(&Event{et, svc, nil}) }\<close>.
\<close>

definition emit :: "'w ext \<Rightarrow> EventType \<Rightarrow> Service \<Rightarrow> 'w \<Rightarrow> 'w" where
  "emit x et svc w = Trigger x (EventHandler svc) (Event et (CService svc) None) w"

section \<open>Resolve\<close>

definition Host_Resolve :: "Host \<Rightarrow> InitSystem option list \<Rightarrow> error option" where
  "Host_Resolve h mgrs = None"

text \<open>
  The loop of Service.Resolve.  The first component of the result is \<open>Some r\<close> when
  the loop left the function (a return of the error, or the panic of the type assertion
  \<^verbatim>\<open>err.(*services.ServiceError)\<close> on an error of another dynamic type), and
  \<open>None\<close> when the loop ended, by \<^verbatim>\<open>break\<close> or at the end of the list.
\<close>

fun Resolve_loop ::
  "'w ext \<Rightarrow> Service \<Rightarrow> InitSystem option list \<Rightarrow> 'w \<Rightarrow>
     error option outcome option \<times> Service \<times> 'w" where
  "Resolve_loop x svc [] w = (None, svc, w)"
| "Resolve_loop x svc (None # mgrs) w = Resolve_loop x svc mgrs w"
| "Resolve_loop x svc (Some sm # mgrs) w =
     (case LookupService x sm (Name svc) w of
        (Inl err, w1) \<Rightarrow>
          (case err of
             ServiceError e \<Rightarrow>
               if e = ErrServiceNotFound
               then Resolve_loop x svc mgrs
                      (Debug x (InitName x sm @ '' doesn't have '' @ Name svc) [] w1)
               else (Some (Returns (Some err)), svc, w1)
           | _ \<Rightarrow> (Some Panics, svc, w1))
      | (Inr ps, w1) \<Rightarrow>
          (let w2 = Info x ''Found %s/%s with status %s''
                      [ArgString (InitName x sm), ArgString (Name svc), ArgStatus ps] w1;
               (svc', w3) = Transition (svc\<lparr>Manager := Some sm\<rparr>) ps (emit x) w2
           in (None, svc', w3)))"

definition Resolve ::
  "'w ext \<Rightarrow> Service \<Rightarrow> InitSystem option list \<Rightarrow> 'w \<Rightarrow>
     error option outcome \<times> Service \<times> 'w" where
  "Resolve x svc mgrs w =
     (case Resolve_loop x svc mgrs w of
        (Some r, svc', w') \<Rightarrow> (r, svc', w')
      | (None, svc', w') \<Rightarrow>
          if Manager svc' = None
          then (Returns (Some (ErrorString
                  (''Could not find service '' @ Name svc' @ '', did you misspell it?''))),
                svc', w')
          else (Returns None, svc', w'))"

section \<open>Collect\<close>

definition Capture :: "'w ext \<Rightarrow> Service \<Rightarrow> string \<Rightarrow> 'w \<Rightarrow> error option \<times> 'w" where
  "Capture x s path w = CollectProcess x (Metrics s) path (Pid (Process s)) w"

definition Host_Capture :: "'w ext \<Rightarrow> Host \<Rightarrow> string \<Rightarrow> 'w \<Rightarrow> error option \<times> 'w" where
  "Host_Capture x h path w = CollectHost x (Metrics h) path w"

text \<open>
  Host.Collect.  The deferred call of the callback runs when the body is left.
\<close>

definition Host_Collect :: "'w ext \<Rightarrow> Host \<Rightarrow> (Checkable \<Rightarrow> 'w \<Rightarrow> 'w) \<Rightarrow> 'w \<Rightarrow> 'w" where
  "Host_Collect x h completeCallback w =
     (let w' = (case Host_Capture x h ''/proc'' w of
                  (Some err, w1) \<Rightarrow>
                    Warn x ''Error collecting host metrics: %s'' [ArgString (ErrorText x err)] w1
                | (None, w1) \<Rightarrow> w1)
      in completeCallback (CHost h) w')"

text \<open>
  Service.Collect, lines 125 to 134: when the status is not Up, ask the Manager.
\<close>

definition Collect_lookup :: "'w ext \<Rightarrow> InitSystem \<Rightarrow> Service \<Rightarrow> 'w \<Rightarrow> Service \<times> 'w" where
  "Collect_lookup x m svc w =
     (if Status (Process svc) \<noteq> Up
      then (case LookupService x m (Name svc) w of
              (Inl err, w1) \<Rightarrow> (svc, Warn x ''%s'' [ArgError err] w1)
            | (Inr status, w1) \<Rightarrow> Transition svc status (emit x) w1)
      else (svc, w))"

text \<open>
  Service.Collect, lines 136 to 149: when the status is Up, capture the metrics of the
  process; when that fails, probe the process with signal 0.
\<close>

definition Collect_capture :: "'w ext \<Rightarrow> Service \<Rightarrow> 'w \<Rightarrow> Service \<times> 'w" where
  "Collect_capture x svc w =
     (if Status (Process svc) = Up
      then (case Capture x svc ''/proc'' w of
              (None, w1) \<Rightarrow> (svc, w1)
            | (Some merr, w1) \<Rightarrow>
                (case Kill x (Pid (Process svc)) 0 w1 of
                   (Some err, w2) \<Rightarrow>
                     Transition svc \<lparr>Pid = 0, Status = Down\<rparr> (emit x)
                       (Info x ''Service %s with process %d does not exist: %s''
                          [ArgString (Name svc), ArgInt (Pid (Process svc)), ArgError err] w2)
                 | (None, w2) \<Rightarrow>
                     (svc, Warn x ''Error capturing metrics for process %d: %s''
                             [ArgInt (Pid (Process svc)), ArgError merr] w2)))
      else (svc, w))"

text \<open>The body of Service.Collect, with its early return.\<close>

definition Collect_body :: "'w ext \<Rightarrow> Service \<Rightarrow> 'w \<Rightarrow> Service \<times> 'w" where
  "Collect_body x svc w =
     (case Manager svc of
        None \<Rightarrow> (svc, w)
      | Some m \<Rightarrow>
          (let (svc1, w1) = Collect_lookup x m svc w
           in Collect_capture x svc1 w1))"

text \<open>
  Service.Collect: the body, then the deferred \<^verbatim>\<open>completeCallback(svc)\<close>, which
  gets the pointer and so sees the Service as the body left it.
\<close>

definition Service_Collect ::
  "'w ext \<Rightarrow> Service \<Rightarrow> (Checkable \<Rightarrow> 'w \<Rightarrow> 'w) \<Rightarrow> 'w \<Rightarrow> Service \<times> 'w" where
  "Service_Collect x svc completeCallback w =
     (let (svc', w') = Collect_body x svc w
      in (svc', completeCallback (CService svc') w'))"

section \<open>Verify\<close>

text \<open>The inner loop: \<^verbatim>\<open>for _, a := range r.Actions { a.Trigger(evt) }\<close>.\<close>

fun trigger_actions :: "'w ext \<Rightarrow> Action list \<Rightarrow> Event \<Rightarrow> 'w \<Rightarrow> 'w" where
  "trigger_actions x [] evt w = w"
| "trigger_actions x (a # as) evt w = trigger_actions x as evt (Trigger x a evt w)"

fun Verify_loop :: "'w ext \<Rightarrow> Rule list \<Rightarrow> Event list \<Rightarrow> 'w \<Rightarrow> Event list \<times> 'w" where
  "Verify_loop x [] events w = (events, w)"
| "Verify_loop x (r # rs) events w =
     (case Check x r w of
        (None, w1) \<Rightarrow> Verify_loop x rs events w1
      | (Some evt, w1) \<Rightarrow>
          Verify_loop x rs (events @ [evt]) (trigger_actions x (Actions r) evt w1))"

definition Verify :: "'w ext \<Rightarrow> 'a Entity_scheme \<Rightarrow> 'w \<Rightarrow> Event list \<times> 'w" where
  "Verify x s w = Verify_loop x (Rules s) [] w"

section \<open>Restart\<close>

text \<open>
  The body of the goroutine.  It runs later, on the Service as it is then, and panics
  when Manager is nil.
\<close>

definition restart_task :: "'w ext \<Rightarrow> Service \<Rightarrow> 'w \<Rightarrow> unit outcome \<times> 'w" where
  "restart_task x s w =
     (let w1 = Debug x ''Restarting %s'' [ArgString (Name s)] w
      in case Manager s of
           None \<Rightarrow> (Panics, w1)
         | Some m \<Rightarrow>
             (case RestartService x m (Name s) w1 of
                (Some err, w2) \<Rightarrow> (Returns (), Warn x (ErrorText x err) [] w2)
              | (None, w2) \<Rightarrow> (Returns (), DebugDebug x ''Restarted %s'' [ArgString (Name s)] w2)))"

text \<open>
  Service.Restart: two assignments, the \<^verbatim>\<open>go\<close> statement, and \<^verbatim>\<open>return nil\<close>.
\<close>

definition Restart :: "'w ext \<Rightarrow> Service \<Rightarrow> 'w \<Rightarrow> error option \<times> Service \<times> 'w" where
  "Restart x s w =
     (let s1 = s\<lparr>Process := (Process s)\<lparr>Pid := 0\<rparr>\<rparr>;
          s2 = s1\<lparr>Process := (Process s1)\<lparr>Status := Starting\<rparr>\<rparr>;
          w1 = Spawn x (restart_task x) w
      in (None, s2, w1))"

section \<open>Sequences of operations\<close>

text \<open>
  The operations that act on a Service after it has been resolved: a Collect cycle, a
  Transition, a Restart, the goroutine of an earlier Restart running, and Verify.
\<close>

datatype 'w operation =
    OpCollect "Checkable \<Rightarrow> 'w \<Rightarrow> 'w"
  | OpTransition ProcessStatus "EventType \<Rightarrow> Service \<Rightarrow> 'w \<Rightarrow> 'w"
  | OpRestart
  | OpRestartTask
  | OpVerify

fun apply_operation :: "'w ext \<Rightarrow> 'w operation \<Rightarrow> Service \<Rightarrow> 'w \<Rightarrow> Service \<times> 'w" where
  "apply_operation x (OpCollect cb) svc w = Service_Collect x svc cb w"
| "apply_operation x (OpTransition ps emitter) svc w = Transition svc ps emitter w"
| "apply_operation x OpRestart svc w = snd (Restart x svc w)"
| "apply_operation x OpRestartTask svc w = (svc, snd (restart_task x svc w))"
| "apply_operation x OpVerify svc w = (svc, snd (Verify x svc w))"

fun run_operations :: "'w ext \<Rightarrow> 'w operation list \<Rightarrow> Service \<Rightarrow> 'w \<Rightarrow> Service \<times> 'w" where
  "run_operations x [] svc w = (svc, w)"
| "run_operations x (op # ops) svc w =
     (case apply_operation x op svc w of (svc', w') \<Rightarrow> run_operations x ops svc' w')"

section \<open>The entries Resolve passes over\<close>

text \<open>
  What the claims about Resolve call skipping: every entry of the list is nil, or an
  init system whose lookup fails with a ServiceError that wraps ErrServiceNotFound.
  The result is the world after these lookups (and the Debug line of each), or
  \<open>None\<close> when some entry is not of that kind.
\<close>

fun Resolve_skips :: "'w ext \<Rightarrow> string \<Rightarrow> InitSystem option list \<Rightarrow> 'w \<Rightarrow> 'w option" where
  "Resolve_skips x n [] w = Some w"
| "Resolve_skips x n (None # mgrs) w = Resolve_skips x n mgrs w"
| "Resolve_skips x n (Some sm # mgrs) w =
     (case LookupService x sm n w of
        (Inl (ServiceError ErrServiceNotFound), w1) \<Rightarrow>
          Resolve_skips x n mgrs (Debug x (InitName x sm @ '' doesn't have '' @ n) [] w1)
      | _ \<Rightarrow> None)"

text \<open>The error Resolve returns when the loop ends and Manager is still nil.\<close>

definition not_found_error :: "'a Entity_scheme \<Rightarrow> error" where
  "not_found_error svc =
     ErrorString (''Could not find service '' @ Name svc @ '', did you misspell it?'')"

section \<open>A world that records the calls\<close>

text \<open>
  One instance of the world, for statements about which calls were made and in which
  order: the list of the calls to collaborators so far.  The collaborators answer from
  fixed tables.
\<close>

datatype call =
    LookupServiceCall InitSystem string
  | RestartServiceCall InitSystem string
  | CollectProcessCall Storage string int
  | CollectHostCall Storage string
  | KillCall int int
  | CheckCall Rule
  | TriggerCall Action Event
  | WarnCall string "logarg list"
  | InfoCall string "logarg list"
  | DebugCall string "logarg list"
  | DebugDebugCall string "logarg list"
  | CallbackCall Checkable
  | GoCall

record answers =
  init_names :: "InitSystem \<Rightarrow> string"
  lookup_answer :: "InitSystem \<Rightarrow> string \<Rightarrow> error + ProcessStatus"
  restart_answer :: "InitSystem \<Rightarrow> string \<Rightarrow> error option"
  capture_answer :: "Storage \<Rightarrow> string \<Rightarrow> int \<Rightarrow> error option"
  host_capture_answer :: "Storage \<Rightarrow> string \<Rightarrow> error option"
  kill_answer :: "int \<Rightarrow> int \<Rightarrow> error option"
  check_answer :: "Rule \<Rightarrow> Event option"
  error_text :: "error \<Rightarrow> string"

definition recorder :: "answers \<Rightarrow> call list ext" where
  "recorder a =
     \<lparr>InitName = init_names a,
      LookupService = (\<lambda>sm n t. (lookup_answer a sm n, t @ [LookupServiceCall sm n])),
      RestartService = (\<lambda>sm n t. (restart_answer a sm n, t @ [RestartServiceCall sm n])),
      CollectProcess = (\<lambda>st p i t. (capture_answer a st p i, t @ [CollectProcessCall st p i])),
      CollectHost = (\<lambda>st p t. (host_capture_answer a st p, t @ [CollectHostCall st p])),
      Kill = (\<lambda>i sg t. (kill_answer a i sg, t @ [KillCall i sg])),
      Check = (\<lambda>r t. (check_answer a r, t @ [CheckCall r])),
      Trigger = (\<lambda>ac ev t. t @ [TriggerCall ac ev]),
      Warn = (\<lambda>f as t. t @ [WarnCall f as]),
      Info = (\<lambda>f as t. t @ [InfoCall f as]),
      Debug = (\<lambda>f as t. t @ [DebugCall f as]),
      DebugDebug = (\<lambda>f as t. t @ [DebugDebugCall f as]),
      ErrorText = error_text a,
      Spawn = (\<lambda>task t. t @ [GoCall])\<rparr>"

text \<open>
  The calls Verify makes for one rule: its Check, then, when Check yields an Event, the
  Trigger of each of the rule's Actions with that Event, in the order of the Actions.
\<close>

definition rule_calls :: "answers \<Rightarrow> Rule \<Rightarrow> call list" where
  "rule_calls a r =
     CheckCall r #
       (case check_answer a r of
          None \<Rightarrow> []
        | Some evt \<Rightarrow> map (\<lambda>ac. TriggerCall ac evt) (Actions r))"

definition callback :: "Checkable \<Rightarrow> call list \<Rightarrow> call list" where
  "callback c t = t @ [CallbackCall c]"

definition no_callback :: "Checkable \<Rightarrow> 'w \<Rightarrow> 'w" where
  "no_callback c w = w"

fun is_callback :: "call \<Rightarrow> bool" where
  "is_callback (CallbackCall c) = True"
| "is_callback _ = False"

fun is_lookup :: "call \<Rightarrow> bool" where
  "is_lookup (LookupServiceCall sm n) = True"
| "is_lookup _ = False"

text \<open>An emitter that records the event types it is given.\<close>

definition note_event :: "EventType \<Rightarrow> Service \<Rightarrow> EventType list \<Rightarrow> EventType list" where
  "note_event et s w = w @ [et]"

text \<open>
  The example of the spec: three init systems; the first does not know the service, the
  second reports it (here Down, pid 4242), the third would report it Up.
\<close>

definition abc_lookup :: "InitSystem \<Rightarrow> string \<Rightarrow> error + ProcessStatus" where
  "abc_lookup sm n =
     (if sm = 1 then Inl (ServiceError ErrServiceNotFound)
      else if sm = 2 then Inr \<lparr>Pid = 4242, Status = Down\<rparr>
      else if sm = 3 then Inr \<lparr>Pid = 77, Status = Up\<rparr>
      else if sm = 4 then Inl (ServiceError (ErrorString ''connection refused''))
      else if sm = 5 then Inl (ErrorString ''timeout'')
      else Inl (ServiceError ErrServiceNotFound))"

definition abc :: answers where
  "abc =
     \<lparr>init_names = (\<lambda>sm. if sm = 1 then ''upstart'' else if sm = 2 then ''runit'' else ''init''),
      lookup_answer = abc_lookup,
      restart_answer = (\<lambda>sm n. None),
      capture_answer = (\<lambda>st p i. Some (ErrorString ''no such process'')),
      host_capture_answer = (\<lambda>st p. None),
      kill_answer = (\<lambda>i sg. if i = 77 then None else Some (ErrorString ''ESRCH'')),
      check_answer = (\<lambda>r. if rule_id r = 2
                           then Some (Event ProcessExists (CHost NewHost) (Some r)) else None),
      error_text = (\<lambda>e. ''error'')\<rparr>"

text \<open>Services for the examples: bound to init system 3 and Up, with pid 77 and pid 500.\<close>

definition up77 :: Service where
  "up77 = web\<lparr>Process := \<lparr>Pid = 77, Status = Up\<rparr>, Manager := Some 3\<rparr>"

definition up500 :: Service where
  "up500 = web\<lparr>Process := \<lparr>Pid = 500, Status = Up\<rparr>, Manager := Some 3\<rparr>"

text \<open>Three rules, of which \<open>abc\<close> lets only the second yield an Event.\<close>

definition three_rules :: "Rule list" where
  "three_rules =
     [\<lparr>rule_id = 1, Actions = [10, 11]\<rparr>, \<lparr>rule_id = 2, Actions = [21, 20]\<rparr>,
      \<lparr>rule_id = 3, Actions = [30]\<rparr>]"

text \<open>A sequence of operations on a resolved Service.\<close>

definition one_cycle :: "call list operation list" where
  "one_cycle =
     [OpCollect callback, OpVerify, OpRestart, OpRestartTask,
      OpTransition \<lparr>Pid = 12, Status = Up\<rparr> (emit (recorder abc)), OpCollect callback]"

section \<open>Auxiliary facts\<close>

lemma recorder_simps:
  "InitName (recorder a) = init_names a"
  "LookupService (recorder a) sm n t = (lookup_answer a sm n, t @ [LookupServiceCall sm n])"
  "RestartService (recorder a) sm n t = (restart_answer a sm n, t @ [RestartServiceCall sm n])"
  "CollectProcess (recorder a) st p i t = (capture_answer a st p i, t @ [CollectProcessCall st p i])"
  "CollectHost (recorder a) st p t = (host_capture_answer a st p, t @ [CollectHostCall st p])"
  "Kill (recorder a) i sg t = (kill_answer a i sg, t @ [KillCall i sg])"
  "Check (recorder a) r t = (check_answer a r, t @ [CheckCall r])"
  "Trigger (recorder a) ac ev t = t @ [TriggerCall ac ev]"
  "Warn (recorder a) f as t = t @ [WarnCall f as]"
  "Info (recorder a) f as t = t @ [InfoCall f as]"
  "Debug (recorder a) f as t = t @ [DebugCall f as]"
  "DebugDebug (recorder a) f as t = t @ [DebugDebugCall f as]"
  "ErrorText (recorder a) = error_text a"
  "Spawn (recorder a) task t = t @ [GoCall]"
  by (simp_all add: recorder_def)

lemma abc_simps:
  "init_names abc sm = (if sm = 1 then ''upstart'' else if sm = 2 then ''runit'' else ''init'')"
  "lookup_answer abc = abc_lookup"
  "restart_answer abc sm n = None"
  "capture_answer abc st p i = Some (ErrorString ''no such process'')"
  "host_capture_answer abc st p = None"
  "kill_answer abc i sg = (if i = 77 then None else Some (ErrorString ''ESRCH''))"
  "check_answer abc r =
     (if rule_id r = 2 then Some (Event ProcessExists (CHost NewHost) (Some r)) else None)"
  "error_text abc e = ''error''"
  by (simp_all add: abc_def)

subsection \<open>Transition keeps everything but the Process Status\<close>

lemma Transition_Manager: "Manager (fst (Transition s ps emitter w)) = Manager s"
  by (cases "Status ps") (simp_all add: Transition_def Let_def)

lemma Transition_Manager_eq:
  "Transition s ps emitter w = (s', w') \<Longrightarrow> Manager s' = Manager s"
  using Transition_Manager [of s ps emitter w] by simp

subsection \<open>The loop of Resolve\<close>

lemma Resolve_loop_skips:
  "Resolve_skips x (Name svc) pre w = Some w1 \<Longrightarrow>
     Resolve_loop x svc (pre @ rest) w = Resolve_loop x svc rest w1"
proof (induction x "Name svc" pre w rule: Resolve_skips.induct)
  case (1 x w)
  then show ?case by simp
next
  case (2 x mgrs w)
  then show ?case by simp
next
  case (3 x sm mgrs w)
  then show ?case
    by (auto split: prod.splits sum.splits error.splits)
qed

text \<open>Resolve at the first init system whose lookup succeeds.\<close>

lemma Resolve_found:
  assumes "Resolve_skips x (Name svc) pre w = Some w1"
    and "LookupService x sm (Name svc) w1 = (Inr ps, w2)"
  shows "Resolve x svc (pre @ Some sm # post) w =
           (Returns None,
            Transition (svc\<lparr>Manager := Some sm\<rparr>) ps (emit x)
              (Info x ''Found %s/%s with status %s''
                 [ArgString (InitName x sm), ArgString (Name svc), ArgStatus ps] w2))"
proof -
  let ?T = "Transition (svc\<lparr>Manager := Some sm\<rparr>) ps (emit x)
              (Info x ''Found %s/%s with status %s''
                 [ArgString (InitName x sm), ArgString (Name svc), ArgStatus ps] w2)"
  have loop: "Resolve_loop x svc (pre @ Some sm # post) w = (None, ?T)"
    using assms by (simp add: Resolve_loop_skips case_prod_beta Let_def)
  have "Manager (fst ?T) = Some sm"
    by (simp add: Transition_Manager)
  then show ?thesis
    by (simp add: Resolve_def loop case_prod_beta)
qed

text \<open>In the recording world: the lookups made while entries are passed over.\<close>

lemma Resolve_skips_lookups:
  "Resolve_skips (recorder a) n pre t = Some t1 \<Longrightarrow>
     filter is_lookup t1 =
       filter is_lookup t @ map (\<lambda>sm. LookupServiceCall sm n) (List.map_filter id pre)"
proof (induction "recorder a" n pre t rule: Resolve_skips.induct)
  case (1 n w)
  then show ?case by (simp add: List.map_filter_simps)
next
  case (2 n mgrs w)
  then show ?case by (simp add: List.map_filter_simps)
next
  case (3 n sm mgrs w)
  then show ?case
    by (auto simp: recorder_simps List.map_filter_simps split: sum.splits error.splits)
qed

lemma Transition_no_lookup:
  "filter is_lookup (snd (Transition s ps (emit (recorder a)) t)) = filter is_lookup t"
  by (cases "Status ps") (simp_all add: Transition_def Let_def emit_def recorder_simps)

lemma Resolve_lookups:
  assumes "Resolve_skips (recorder a) (Name svc) pre [] = Some t1"
    and "lookup_answer a sm (Name svc) = Inr ps"
  shows "filter is_lookup (snd (snd (Resolve (recorder a) svc (pre @ Some sm # post) []))) =
           map (\<lambda>sm. LookupServiceCall sm (Name svc)) (List.map_filter id pre @ [sm])"
proof -
  have "LookupService (recorder a) sm (Name svc) t1 =
          (Inr ps, t1 @ [LookupServiceCall sm (Name svc)])"
    using assms(2) by (simp add: recorder_simps)
  from Resolve_found [OF assms(1) this, of post] Resolve_skips_lookups [OF assms(1)]
  show ?thesis
    by (simp add: Transition_no_lookup recorder_simps)
qed

text \<open>
  When the loop leaves the function by a return, it returns the ServiceError of the first
  init system that is not passed over, and the Service is as it was.
\<close>

lemma Resolve_loop_returns:
  "Resolve_loop x svc mgrs w = (Some (Returns r), svc', w') \<Longrightarrow>
     svc' = svc \<and>
     (\<exists>pre sm post w1 e.
        mgrs = pre @ Some sm # post \<and> Resolve_skips x (Name svc) pre w = Some w1 \<and>
        LookupService x sm (Name svc) w1 = (Inl (ServiceError e), w') \<and>
        e \<noteq> ErrServiceNotFound \<and> r = Some (ServiceError e))"
proof (induction x svc mgrs w rule: Resolve_loop.induct)
  case (1 x svc w)
  then show ?case by simp
next
  case (2 x svc mgrs w)
  then obtain pre sm post w1 e where
    "svc' = svc" "mgrs = pre @ Some sm # post" "Resolve_skips x (Name svc) pre w = Some w1"
    "LookupService x sm (Name svc) w1 = (Inl (ServiceError e), w')"
    "e \<noteq> ErrServiceNotFound" "r = Some (ServiceError e)"
    by auto
  then have "None # mgrs = (None # pre) @ Some sm # post \<and>
             Resolve_skips x (Name svc) (None # pre) w = Some w1"
    by simp
  with \<open>svc' = svc\<close> \<open>LookupService x sm (Name svc) w1 = (Inl (ServiceError e), w')\<close>
    \<open>e \<noteq> ErrServiceNotFound\<close> \<open>r = Some (ServiceError e)\<close>
  show ?case by blast
next
  case (3 x svc sm mgrs w)
  obtain res w1 where lk: "LookupService x sm (Name svc) w = (res, w1)"
    by (cases "LookupService x sm (Name svc) w")
  show ?case
  proof (cases res)
    case (Inr ps)
    with 3 lk show ?thesis by (simp add: case_prod_beta Let_def)
  next
    case (Inl err)
    show ?thesis
    proof (cases err)
      case ErrServiceNotFound
      with 3 lk Inl show ?thesis by simp
    next
      case (ErrorString s)
      with 3 lk Inl show ?thesis by simp
    next
      case (ServiceError e)
      show ?thesis
      proof (cases "e = ErrServiceNotFound")
        case True
        let ?w2 = "Debug x (InitName x sm @ '' doesn't have '' @ Name svc) [] w1"
        from 3 lk Inl ServiceError True
        have "Resolve_loop x svc mgrs ?w2 = (Some (Returns r), svc', w')" by simp
        from "3.IH" [OF lk [symmetric] Inl ServiceError True this]
        obtain pre sm' post w1' e' where
          "svc' = svc" "mgrs = pre @ Some sm' # post"
          "Resolve_skips x (Name svc) pre ?w2 = Some w1'"
          "LookupService x sm' (Name svc) w1' = (Inl (ServiceError e'), w')"
          "e' \<noteq> ErrServiceNotFound" "r = Some (ServiceError e')"
          by auto
        moreover from this lk Inl ServiceError True
        have "Some sm # mgrs = (Some sm # pre) @ Some sm' # post \<and>
              Resolve_skips x (Name svc) (Some sm # pre) w = Some w1'"
          by simp
        ultimately show ?thesis by blast
      next
        case False
        with 3 lk Inl ServiceError
        have "svc' = svc" "w' = w1" "r = Some (ServiceError e)" by auto
        moreover have "Some sm # mgrs = [] @ Some sm # mgrs \<and>
                       Resolve_skips x (Name svc) [] w = Some w" by simp
        ultimately show ?thesis using lk Inl ServiceError False by blast
      qed
    qed
  qed
qed

text \<open>
  When the loop ends, either every entry was passed over and the Service is as it was,
  or Manager is set.
\<close>

lemma Resolve_loop_ends:
  "Resolve_loop x svc mgrs w = (None, svc', w') \<Longrightarrow>
     (svc' = svc \<and> Resolve_skips x (Name svc) mgrs w = Some w') \<or> Manager svc' \<noteq> None"
proof (induction x svc mgrs w rule: Resolve_loop.induct)
  case (1 x svc w)
  then show ?case by simp
next
  case (2 x svc mgrs w)
  then show ?case by simp
next
  case (3 x svc sm mgrs w)
  obtain res w1 where lk: "LookupService x sm (Name svc) w = (res, w1)"
    by (cases "LookupService x sm (Name svc) w")
  show ?case
  proof (cases res)
    case (Inr ps)
    with 3 lk show ?thesis
      by (auto simp: Let_def split: prod.splits dest: Transition_Manager_eq)
  next
    case (Inl err)
    show ?thesis
    proof (cases err)
      case ErrServiceNotFound
      with 3 lk Inl show ?thesis by simp
    next
      case (ErrorString s)
      with 3 lk Inl show ?thesis by simp
    next
      case (ServiceError e)
      show ?thesis
      proof (cases "e = ErrServiceNotFound")
        case True
        with 3 lk Inl ServiceError show ?thesis by simp
      next
        case False
        with 3 lk Inl ServiceError show ?thesis by simp
      qed
    qed
  qed
qed

text \<open>
  The loop changes the Service only at an init system whose lookup succeeds, after
  passing over every entry before it.
\<close>

lemma Resolve_loop_Manager:
  "Resolve_loop x svc mgrs w = (l, svc', w') \<Longrightarrow>
     svc' = svc \<or>
     (\<exists>pre sm post w1 ps w2.
        mgrs = pre @ Some sm # post \<and> Resolve_skips x (Name svc) pre w = Some w1 \<and>
        LookupService x sm (Name svc) w1 = (Inr ps, w2) \<and> l = None \<and>
        Manager svc' = Some sm)"
proof (induction x svc mgrs w rule: Resolve_loop.induct)
  case (1 x svc w)
  then show ?case by simp
next
  case (2 x svc mgrs w)
  then have "svc' = svc \<or>
     (\<exists>pre sm post w1 ps w2.
        mgrs = pre @ Some sm # post \<and> Resolve_skips x (Name svc) pre w = Some w1 \<and>
        LookupService x sm (Name svc) w1 = (Inr ps, w2) \<and> l = None \<and>
        Manager svc' = Some sm)"
    by simp
  then show ?case
  proof
    assume "svc' = svc"
    then show ?thesis by simp
  next
    assume "\<exists>pre sm post w1 ps w2.
        mgrs = pre @ Some sm # post \<and> Resolve_skips x (Name svc) pre w = Some w1 \<and>
        LookupService x sm (Name svc) w1 = (Inr ps, w2) \<and> l = None \<and>
        Manager svc' = Some sm"
    then obtain pre sm post w1 ps w2 where
      h: "mgrs = pre @ Some sm # post" "Resolve_skips x (Name svc) pre w = Some w1"
         "LookupService x sm (Name svc) w1 = (Inr ps, w2)" "l = None" "Manager svc' = Some sm"
      by blast
    then have "None # mgrs = (None # pre) @ Some sm # post \<and>
               Resolve_skips x (Name svc) (None # pre) w = Some w1"
      by simp
    with h show ?thesis by blast
  qed
next
  case (3 x svc sm mgrs w)
  obtain res w1 where lk: "LookupService x sm (Name svc) w = (res, w1)"
    by (cases "LookupService x sm (Name svc) w")
  show ?case
  proof (cases res)
    case (Inr ps)
    with 3 lk have "l = None" "Manager svc' = Some sm"
      by (auto simp: Let_def split: prod.splits dest: Transition_Manager_eq)
    moreover have "Some sm # mgrs = [] @ Some sm # mgrs \<and>
                   Resolve_skips x (Name svc) [] w = Some w" by simp
    ultimately show ?thesis using lk Inr by blast
  next
    case (Inl err)
    show ?thesis
    proof (cases err)
      case ErrServiceNotFound
      with 3 lk Inl show ?thesis by simp
    next
      case (ErrorString s)
      with 3 lk Inl show ?thesis by simp
    next
      case (ServiceError e)
      show ?thesis
      proof (cases "e = ErrServiceNotFound")
        case False
        with 3 lk Inl ServiceError show ?thesis by simp
      next
        case True
        let ?w2 = "Debug x (InitName x sm @ '' doesn't have '' @ Name svc) [] w1"
        from 3 lk Inl ServiceError True
        have "Resolve_loop x svc mgrs ?w2 = (l, svc', w')" by simp
        from "3.IH" [OF lk [symmetric] Inl ServiceError True this]
        show ?thesis
        proof
          assume "svc' = svc"
          then show ?thesis by simp
        next
          assume "\<exists>pre sma post w1' ps w2.
            mgrs = pre @ Some sma # post \<and> Resolve_skips x (Name svc) pre ?w2 = Some w1' \<and>
            LookupService x sma (Name svc) w1' = (Inr ps, w2) \<and> l = None \<and>
            Manager svc' = Some sma"
          then obtain pre sma post w1' ps w2 where
            h: "mgrs = pre @ Some sma # post" "Resolve_skips x (Name svc) pre ?w2 = Some w1'"
               "LookupService x sma (Name svc) w1' = (Inr ps, w2)" "l = None"
               "Manager svc' = Some sma"
            by blast
          with lk Inl ServiceError True
          have "Some sm # mgrs = (Some sm # pre) @ Some sma # post \<and>
                Resolve_skips x (Name svc) (Some sm # pre) w = Some w1'"
            by simp
          with h show ?thesis by blast
        qed
      qed
    qed
  qed
qed

subsection \<open>Collect\<close>

lemma Collect_unset:
  "Manager svc = None \<Longrightarrow> Service_Collect x svc cb w = (svc, cb (CService svc) w)"
  by (simp add: Service_Collect_def Collect_body_def)

lemma Collect_set:
  "Manager svc = Some m \<Longrightarrow> Collect_lookup x m svc w = (s1, w1) \<Longrightarrow>
     Service_Collect x svc cb w =
       (fst (Collect_capture x s1 w1),
        cb (CService (fst (Collect_capture x s1 w1))) (snd (Collect_capture x s1 w1)))"
  by (simp add: Service_Collect_def Collect_body_def case_prod_beta)

lemma Collect_lookup_Manager: "Manager (fst (Collect_lookup x m s w)) = Manager s"
  by (simp add: Collect_lookup_def Transition_Manager split: prod.splits sum.splits)

lemma Collect_capture_Manager: "Manager (fst (Collect_capture x s w)) = Manager s"
  by (simp add: Collect_capture_def Transition_Manager split: prod.splits option.splits)

lemma Collect_Manager: "Manager (fst (Service_Collect x s cb w)) = Manager s"
  by (simp add: Service_Collect_def Collect_body_def case_prod_beta Collect_lookup_Manager
        Collect_capture_Manager split: option.splits)

text \<open>In the recording world the body of Collect makes no call of the callback.\<close>

lemma Transition_no_callback:
  "filter is_callback (snd (Transition s ps (emit (recorder a)) t)) = filter is_callback t"
  by (cases "Status ps") (simp_all add: Transition_def Let_def emit_def recorder_simps)

lemma Collect_lookup_no_callback:
  "filter is_callback (snd (Collect_lookup (recorder a) m s t)) = filter is_callback t"
  by (simp add: Collect_lookup_def recorder_simps Transition_no_callback split: sum.splits)

lemma Collect_capture_no_callback:
  "filter is_callback (snd (Collect_capture (recorder a) s t)) = filter is_callback t"
  by (simp add: Collect_capture_def Capture_def recorder_simps Transition_no_callback
        split: option.splits)

lemma Collect_body_no_callback:
  "filter is_callback (snd (Collect_body (recorder a) s t)) = filter is_callback t"
  by (simp add: Collect_body_def case_prod_beta Collect_lookup_no_callback
        Collect_capture_no_callback split: option.splits)

subsection \<open>Verify in the recording world\<close>

lemma trigger_actions_recorder:
  "trigger_actions (recorder a) as evt t = t @ map (\<lambda>ac. TriggerCall ac evt) as"
  by (induction as arbitrary: t) (simp_all add: recorder_simps)

lemma Verify_loop_recorder:
  "Verify_loop (recorder a) rs events t =
     (events @ List.map_filter (check_answer a) rs, t @ concat (map (rule_calls a) rs))"
proof (induction rs arbitrary: events t)
  case Nil
  then show ?case by (simp add: List.map_filter_simps)
next
  case (Cons r rs)
  show ?case
  proof (cases "check_answer a r")
    case None
    then show ?thesis
      by (simp add: Cons.IH recorder_simps rule_calls_def List.map_filter_simps)
  next
    case (Some evt)
    then show ?thesis
      by (simp add: Cons.IH recorder_simps rule_calls_def List.map_filter_simps
            trigger_actions_recorder)
  qed
qed

subsection \<open>Sequences of operations keep Manager\<close>

lemma apply_operation_Manager: "Manager (fst (apply_operation x op s w)) = Manager s"
  by (cases op) (simp_all add: Collect_Manager Transition_Manager Restart_def Let_def)

lemma run_operations_Manager: "Manager (fst (run_operations x ops s w)) = Manager s"
proof (induction ops arbitrary: s w)
  case Nil
  then show ?case by simp
next
  case (Cons op ops)
  obtain s' w' where st: "apply_operation x op s w = (s', w')"
    by (cases "apply_operation x op s w")
  then have "Manager s' = Manager s"
    using apply_operation_Manager [of x op s w] by simp
  with Cons.IH [of s' w'] st show ?case by simp
qed

section \<open>Properties\<close>

text \<open>
  C1.  A Transition into Up from Unknown emits nothing; into Up from Starting, Down or
  Up it calls the emitter exactly once, with ProcessExists; into Starting it emits
  nothing.  In every case (every new status, Down and Unknown included) the stored
  Process Status becomes the new one and nothing else of the Service changes.
\<close>

theorem Transition_events:
  "(Status ps = Up \<and> Status (Process s) = Unknown \<longrightarrow>
      snd (Transition s ps emitter w) = w)
   \<and> (Status ps = Up \<and> Status (Process s) \<in> {Starting, Down, Up} \<longrightarrow>
      snd (Transition s ps emitter w) = emitter ProcessExists (s\<lparr>Process := ps\<rparr>) w)
   \<and> (Status ps = Starting \<longrightarrow> snd (Transition s ps emitter w) = w)
   \<and> fst (Transition s ps emitter w) = s\<lparr>Process := ps\<rparr>"
  by (cases "Status ps") (auto simp: Transition_def Let_def)

theorem Transition_events_witness:
  "snd (Transition web \<lparr>Pid = 77, Status = Up\<rparr> note_event []) = []
   \<and> snd (Transition (web\<lparr>Process := \<lparr>Pid = 0, Status = Down\<rparr>\<rparr>)
          \<lparr>Pid = 77, Status = Up\<rparr> note_event []) = [ProcessExists]
   \<and> snd (Transition web \<lparr>Pid = 0, Status = Starting\<rparr> note_event []) = []
   \<and> Process (fst (Transition web \<lparr>Pid = 77, Status = Up\<rparr> note_event []))
       = \<lparr>Pid = 77, Status = Up\<rparr>"
  using Transition_events [of "\<lparr>Pid = 77, Status = Up\<rparr>" "web" note_event "[]"]
    Transition_events [of "\<lparr>Pid = 77, Status = Up\<rparr>"
      "web\<lparr>Process := \<lparr>Pid = 0, Status = Down\<rparr>\<rparr>" note_event "[]"]
    Transition_events [of "\<lparr>Pid = 0, Status = Starting\<rparr>" "web" note_event "[]"]
  by (simp add: web_def note_event_def)

text \<open>
  C2.  Resolve passes over the nil entries and the init systems whose lookup fails with
  service-not-found (the list \<open>pre\<close>).  At the first init system \<open>sm\<close> whose lookup
  succeeds with a Process Status \<open>ps\<close>, it binds Manager to \<open>sm\<close>, applies Transition
  with \<open>ps\<close> (after the Info line) and returns nil.  The result does not mention the
  entries after \<open>sm\<close> (the list \<open>post\<close>) and is the same as without them, whatever
  their lookups would answer or change: none of them is queried.  In the recording
  world the lookups made are those of the init systems of \<open>pre\<close> and of \<open>sm\<close>, in
  order, and no other.
\<close>

theorem Resolve_first_match:
  "(Resolve_skips x (Name svc) pre w = Some w1 \<and>
    LookupService x sm (Name svc) w1 = (Inr ps, w2) \<longrightarrow>
      Resolve x svc (pre @ Some sm # post) w =
        (Returns None,
         Transition (svc\<lparr>Manager := Some sm\<rparr>) ps (emit x)
           (Info x ''Found %s/%s with status %s''
              [ArgString (InitName x sm), ArgString (Name svc), ArgStatus ps] w2))
      \<and> Manager (fst (snd (Resolve x svc (pre @ Some sm # post) w))) = Some sm
      \<and> Process (fst (snd (Resolve x svc (pre @ Some sm # post) w))) = ps
      \<and> Resolve x svc (pre @ Some sm # post) w = Resolve x svc (pre @ [Some sm]) w)
   \<and> (Resolve_skips (recorder a) (Name svc) pre [] = Some t1 \<and>
       lookup_answer a sm (Name svc) = Inr ps \<longrightarrow>
         filter is_lookup (snd (snd (Resolve (recorder a) svc (pre @ Some sm # post) []))) =
           map (\<lambda>sm. LookupServiceCall sm (Name svc)) (List.map_filter id pre @ [sm]))"
proof -
  have found: "Resolve x svc (pre @ Some sm # rest) w =
           (Returns None,
            Transition (svc\<lparr>Manager := Some sm\<rparr>) ps (emit x)
              (Info x ''Found %s/%s with status %s''
                 [ArgString (InitName x sm), ArgString (Name svc), ArgStatus ps] w2))"
    if "Resolve_skips x (Name svc) pre w = Some w1"
      and "LookupService x sm (Name svc) w1 = (Inr ps, w2)" for rest
    using that by (rule Resolve_found)
  have stored: "Process (fst (Transition s ps emitter v)) = ps" for s emitter and v :: 'a
    by (cases "Status ps") (simp_all add: Transition_def Let_def)
  have lookups:
    "filter is_lookup (snd (snd (Resolve (recorder a) svc (pre @ Some sm # post) []))) =
       map (\<lambda>sm. LookupServiceCall sm (Name svc)) (List.map_filter id pre @ [sm])"
    if "Resolve_skips (recorder a) (Name svc) pre [] = Some t1"
      and "lookup_answer a sm (Name svc) = Inr ps"
    using that by (rule Resolve_lookups)
  show ?thesis
    using found [of post] found [of "[]"] stored lookups
    by (simp add: Transition_Manager)
qed

text \<open>
  The example of the spec in the recording world: of the init systems 1, 2 and 3, the
  first does not have the service, the second has it, and the third is never queried.
\<close>

theorem Resolve_first_match_witness:
  "Resolve_skips (recorder abc) (Name web) [Some 1, None] [] =
     Some [LookupServiceCall 1 ''web'', DebugCall ''upstart doesn't have web'' []]
   \<and> LookupService (recorder abc) 2 (Name web)
        [LookupServiceCall 1 ''web'', DebugCall ''upstart doesn't have web'' []] =
       (Inr \<lparr>Pid = 4242, Status = Down\<rparr>,
        [LookupServiceCall 1 ''web'', DebugCall ''upstart doesn't have web'' [],
         LookupServiceCall 2 ''web''])
   \<and> Resolve (recorder abc) web [Some 1, None, Some 2, Some 3] [] =
       (Returns None,
        web\<lparr>Process := \<lparr>Pid = 4242, Status = Down\<rparr>, Manager := Some 2\<rparr>,
        [LookupServiceCall 1 ''web'', DebugCall ''upstart doesn't have web'' [],
         LookupServiceCall 2 ''web'',
         InfoCall ''Found %s/%s with status %s''
           [ArgString ''runit'', ArgString ''web'', ArgStatus \<lparr>Pid = 4242, Status = Down\<rparr>],
         TriggerCall 9 (Event ProcessDoesNotExist
           (CService (web\<lparr>Process := \<lparr>Pid = 4242, Status = Down\<rparr>, Manager := Some 2\<rparr>))
           None)])
   \<and> lookup_answer abc 2 (Name web) = Inr \<lparr>Pid = 4242, Status = Down\<rparr>
   \<and> filter is_lookup
        (snd (snd (Resolve (recorder abc) web [Some 1, None, Some 2, Some 3] []))) =
       [LookupServiceCall 1 ''web'', LookupServiceCall 2 ''web'']"
proof -
  let ?t1 = "[LookupServiceCall 1 ''web'', DebugCall ''upstart doesn't have web'' []]"
  have skips: "Resolve_skips (recorder abc) (Name web) [Some 1, None] [] = Some ?t1"
    by (simp add: recorder_simps abc_simps abc_lookup_def Name_def web_def)
  have found: "LookupService (recorder abc) 2 (Name web) ?t1 =
       (Inr \<lparr>Pid = 4242, Status = Down\<rparr>, ?t1 @ [LookupServiceCall 2 ''web''])"
    by (simp add: recorder_simps abc_simps abc_lookup_def Name_def web_def)
  have answer: "lookup_answer abc 2 (Name web) = Inr \<lparr>Pid = 4242, Status = Down\<rparr>"
    by (simp add: abc_simps abc_lookup_def)
  from Resolve_first_match [of "recorder abc" web "[Some 1, None]" "[]" ?t1 2
      "\<lparr>Pid = 4242, Status = Down\<rparr>" "?t1 @ [LookupServiceCall 2 ''web'']" "[Some 3]" abc ?t1]
    skips found answer
  show ?thesis
    by (simp add: recorder_simps abc_simps Transition_def Let_def emit_def Name_def
          web_def List.map_filter_simps)
qed

text \<open>
  C3.  Collect on a Service calls the callback exactly once, last, with the Service as
  the body left it, on every path through the body: running Collect with a callback
  \<open>cb\<close> is running it with a callback that does nothing and then applying \<open>cb\<close> once;
  this holds for every callback, every world and every behaviour of the collaborators.
  With Manager unset nothing else happens.  The same holds for Collect on a Host.  In
  the recording world the list of calls has exactly one call of the callback, for a
  Service and for a Host.
\<close>

theorem Collect_calls_back_once:
  "Service_Collect x svc cb w =
     (case Service_Collect x svc no_callback w of (svc', w') \<Rightarrow> (svc', cb (CService svc') w'))
   \<and> (Manager svc = None \<longrightarrow> Service_Collect x svc cb w = (svc, cb (CService svc) w))
   \<and> Host_Collect x h cb w = cb (CHost h) (Host_Collect x h no_callback w)
   \<and> filter is_callback (snd (Service_Collect (recorder a) svc callback [])) =
       [CallbackCall (CService (fst (Service_Collect (recorder a) svc callback [])))]
   \<and> filter is_callback (Host_Collect (recorder a) h callback []) = [CallbackCall (CHost h)]"
proof -
  have generic: "Service_Collect x svc cb w =
     (case Service_Collect x svc no_callback w of (svc', w') \<Rightarrow> (svc', cb (CService svc') w'))"
    by (simp add: Service_Collect_def no_callback_def case_prod_beta)
  have host: "Host_Collect x h cb w = cb (CHost h) (Host_Collect x h no_callback w)"
    by (simp add: Host_Collect_def no_callback_def Let_def)
  have once: "filter is_callback (snd (Service_Collect (recorder a) svc callback [])) =
       [CallbackCall (CService (fst (Service_Collect (recorder a) svc callback [])))]"
    using Collect_body_no_callback [of a svc "[]"]
    by (simp add: Service_Collect_def callback_def case_prod_beta)
  have host_once:
    "filter is_callback (Host_Collect (recorder a) h callback []) = [CallbackCall (CHost h)]"
    by (simp add: Host_Collect_def Host_Capture_def callback_def recorder_simps Let_def
          split: option.splits)
  from generic host once host_once Collect_unset [of svc x cb w] show ?thesis
    by simp
qed

text \<open>
  An unresolved Service, a Service whose capture fails while its process lives, and the
  Host.
\<close>

theorem Collect_calls_back_once_witness:
  "Manager web = None
   \<and> Service_Collect (recorder abc) web callback [] =
       (web, [CallbackCall (CService web)])
   \<and> Service_Collect (recorder abc) (web\<lparr>Manager := Some 3\<rparr>) callback [] =
       (web\<lparr>Process := \<lparr>Pid = 77, Status = Up\<rparr>, Manager := Some 3\<rparr>,
        [LookupServiceCall 3 ''web'', CollectProcessCall NewProcessStore ''/proc'' 77,
         KillCall 77 0,
         WarnCall ''Error capturing metrics for process %d: %s''
           [ArgInt 77, ArgError (ErrorString ''no such process'')],
         CallbackCall (CService (web
           \<lparr>Process := \<lparr>Pid = 77, Status = Up\<rparr>, Manager := Some 3\<rparr>))])
   \<and> Host_Collect (recorder abc) NewHost callback [] =
       [CollectHostCall (NewHostStore 15) ''/proc'', CallbackCall (CHost NewHost)]"
  using Collect_calls_back_once [of "recorder abc" "web" callback "[]"
      NewHost abc]
    Collect_calls_back_once [of "recorder abc" "web\<lparr>Manager := Some 3\<rparr>"
      callback "[]" NewHost abc]
  by (simp add: Service_Collect_def Collect_body_def Collect_lookup_def Collect_capture_def
        Capture_def Host_Collect_def Host_Capture_def Transition_def Let_def emit_def
        callback_def no_callback_def recorder_simps abc_simps abc_lookup_def Name_def
        Metrics_def web_def NewHost_def)

text \<open>
  C4, as amended.  A Transition with a new status Down calls the emitter exactly once,
  with ProcessDoesNotExist, whatever the old status; the stored Process Status is the
  new one as a whole, so the stored pid is the pid of the new status (which is 0 when
  the caller passes 0, as Collect does after a failed probe), not 0 in general.
\<close>

theorem Transition_Down:
  "Status ps = Down \<Longrightarrow>
     Transition s ps emitter w =
       (s\<lparr>Process := ps\<rparr>, emitter ProcessDoesNotExist (s\<lparr>Process := ps\<rparr>) w)
     \<and> Pid (Process (fst (Transition s ps emitter w))) = Pid ps"
  by (simp add: Transition_def Let_def)

text \<open>A Transition to Down with pid 4242.\<close>

theorem Transition_Down_witness:
  "Status \<lparr>Pid = 4242, Status = Down\<rparr> = Down
   \<and> Transition web \<lparr>Pid = 4242, Status = Down\<rparr> note_event [] =
       (web\<lparr>Process := \<lparr>Pid = 4242, Status = Down\<rparr>\<rparr>,
        [ProcessDoesNotExist])"
  using Transition_Down [of "\<lparr>Pid = 4242, Status = Down\<rparr>" "web"
      note_event "[]"]
  by (simp add: note_event_def)

text \<open>
  C4 as stated fails: Transition does not reset the pid.  With a new status Down that
  carries pid 4242 the stored pid is 4242 after the call.
\<close>

theorem Transition_Down_pid_counterexample:
  "Status \<lparr>Pid = 4242, Status = Down\<rparr> = Down
   \<and> Pid (Process (fst (Transition web
        \<lparr>Pid = 4242, Status = Down\<rparr> note_event []))) = 4242
   \<and> Pid (Process (fst (Transition web
        \<lparr>Pid = 4242, Status = Down\<rparr> note_event []))) \<noteq> 0"
  by (simp add: Transition_def Let_def web_def)

text \<open>
  C5, as amended.  Resolve returns an error in exactly two ways.  When the lookup of
  an init system fails with a ServiceError whose cause is not service-not-found, after
  the entries before it were passed over, Resolve returns that error at once: the
  result does not depend on the later entries, and the Service (its Manager too) is as
  it was.  When every entry is passed over and Manager is unset, Resolve returns the
  error "Could not find service ..., did you misspell it?" and the Service is as it was.
  Whenever Resolve returns an error it is one of these two.  A Service whose Manager is
  unset is skipped by Collect, which only calls the callback.  (A lookup error that is
  not a ServiceError is left out: see the counterexample.)
\<close>

theorem Resolve_failures:
  "(Resolve_skips x (Name svc) pre w = Some w1 \<and>
    LookupService x sm (Name svc) w1 = (Inl (ServiceError e), w2) \<and> e \<noteq> ErrServiceNotFound
      \<longrightarrow> Resolve x svc (pre @ Some sm # post) w = (Returns (Some (ServiceError e)), svc, w2))
   \<and> (Resolve_skips x (Name svc) mgrs w = Some w1 \<and> Manager svc = None
      \<longrightarrow> Resolve x svc mgrs w = (Returns (Some (not_found_error svc)), svc, w1))
   \<and> (Resolve x svc mgrs w = (Returns (Some err), svc', w')
      \<longrightarrow> svc' = svc \<and>
          ((\<exists>pre sm post w1 e.
              mgrs = pre @ Some sm # post \<and> Resolve_skips x (Name svc) pre w = Some w1 \<and>
              LookupService x sm (Name svc) w1 = (Inl (ServiceError e), w') \<and>
              e \<noteq> ErrServiceNotFound \<and> err = ServiceError e)
           \<or> (Resolve_skips x (Name svc) mgrs w = Some w' \<and> Manager svc = None \<and>
               err = not_found_error svc)))
   \<and> (Manager svc = None \<longrightarrow> Service_Collect x svc cb w = (svc, cb (CService svc) w))"
proof -
  have hard: "Resolve x svc (pre @ Some sm # post) w = (Returns (Some (ServiceError e)), svc, w2)"
    if "Resolve_skips x (Name svc) pre w = Some w1 \<and>
        LookupService x sm (Name svc) w1 = (Inl (ServiceError e), w2) \<and> e \<noteq> ErrServiceNotFound"
    using that by (simp add: Resolve_def Resolve_loop_skips)
  have nowhere: "Resolve x svc mgrs w = (Returns (Some (not_found_error svc)), svc, w1)"
    if "Resolve_skips x (Name svc) mgrs w = Some w1 \<and> Manager svc = None"
    using that Resolve_loop_skips [of x svc mgrs w w1 "[]"]
    by (simp add: Resolve_def not_found_error_def)
  have skipped: "Service_Collect x svc cb w = (svc, cb (CService svc) w)" if "Manager svc = None"
    using that by (rule Collect_unset)
  have only: "svc' = svc \<and>
          ((\<exists>pre sm post w1 e.
              mgrs = pre @ Some sm # post \<and> Resolve_skips x (Name svc) pre w = Some w1 \<and>
              LookupService x sm (Name svc) w1 = (Inl (ServiceError e), w') \<and>
              e \<noteq> ErrServiceNotFound \<and> err = ServiceError e)
           \<or> (Resolve_skips x (Name svc) mgrs w = Some w' \<and> Manager svc = None \<and>
               err = not_found_error svc))"
    if r: "Resolve x svc mgrs w = (Returns (Some err), svc', w')"
  proof -
    obtain l s1 w1 where loop: "Resolve_loop x svc mgrs w = (l, s1, w1)"
      by (cases "Resolve_loop x svc mgrs w")
    show ?thesis
    proof (cases l)
      case (Some o1)
      with r loop have "Resolve_loop x svc mgrs w = (Some (Returns (Some err)), svc', w')"
        by (simp add: Resolve_def)
      from Resolve_loop_returns [OF this] show ?thesis by blast
    next
      case None
      with r loop have e: "Manager s1 = None" "svc' = s1" "w' = w1" "err = not_found_error s1"
        by (auto simp: Resolve_def not_found_error_def split: if_splits)
      from Resolve_loop_ends [of x svc mgrs w s1 w1] loop None e
      show ?thesis by auto
    qed
  qed
  from hard nowhere skipped only show ?thesis by blast
qed

text \<open>
  Init system 4 refuses the connection; init system 1 does not have the service.
\<close>

theorem Resolve_failures_witness:
  "Resolve_skips (recorder abc) (Name web) [Some 1] [] =
     Some [LookupServiceCall 1 ''web'', DebugCall ''upstart doesn't have web'' []]
   \<and> LookupService (recorder abc) 4 (Name web)
        [LookupServiceCall 1 ''web'', DebugCall ''upstart doesn't have web'' []] =
       (Inl (ServiceError (ErrorString ''connection refused'')),
        [LookupServiceCall 1 ''web'', DebugCall ''upstart doesn't have web'' [],
         LookupServiceCall 4 ''web''])
   \<and> ErrorString ''connection refused'' \<noteq> ErrServiceNotFound
   \<and> Resolve (recorder abc) web [Some 1, Some 4, Some 3] [] =
       (Returns (Some (ServiceError (ErrorString ''connection refused''))),
        web,
        [LookupServiceCall 1 ''web'', DebugCall ''upstart doesn't have web'' [],
         LookupServiceCall 4 ''web''])
   \<and> Manager web = None
   \<and> Resolve (recorder abc) web [Some 1, None] [] =
       (Returns (Some (ErrorString ''Could not find service web, did you misspell it?'')),
        web,
        [LookupServiceCall 1 ''web'', DebugCall ''upstart doesn't have web'' []])
   \<and> Service_Collect (recorder abc) web callback [] =
       (web, [CallbackCall (CService web)])"
proof -
  let ?t1 = "[LookupServiceCall 1 ''web'', DebugCall ''upstart doesn't have web'' []]"
  have skips: "Resolve_skips (recorder abc) (Name web) [Some 1] [] = Some ?t1"
    by (simp add: recorder_simps abc_simps abc_lookup_def Name_def web_def)
  have skips2:
    "Resolve_skips (recorder abc) (Name web) [Some 1, None] [] = Some ?t1"
    by (simp add: recorder_simps abc_simps abc_lookup_def Name_def web_def)
  have hard: "LookupService (recorder abc) 4 (Name web) ?t1 =
       (Inl (ServiceError (ErrorString ''connection refused'')),
        ?t1 @ [LookupServiceCall 4 ''web''])"
    by (simp add: recorder_simps abc_simps abc_lookup_def Name_def web_def)
  have unset: "Manager web = None"
    by (simp add: web_def)
  from Resolve_failures [of "recorder abc" "web" "[Some 1]" "[]" ?t1 4
      "ErrorString ''connection refused''" "?t1 @ [LookupServiceCall 4 ''web'']" "[Some 3]"
      "[Some 1, None]" ]
    skips skips2 hard unset
  show ?thesis
    by (simp add: not_found_error_def Name_def web_def callback_def)
qed

text \<open>
  C5 as stated fails: init system 5 fails with an error that is not service-not-found and
  not a \<^verbatim>\<open>*services.ServiceError\<close>.  The type assertion of Resolve panics: Resolve
  does not return that error.
\<close>

theorem Resolve_panics_counterexample:
  "lookup_answer abc 5 ''web'' = Inl (ErrorString ''timeout'')
   \<and> ErrorString ''timeout'' \<noteq> ServiceError ErrServiceNotFound
   \<and> Resolve (recorder abc) web [Some 5, Some 3] [] =
       (Panics, web, [LookupServiceCall 5 ''web''])
   \<and> fst (Resolve (recorder abc) web [Some 5, Some 3] []) \<noteq>
       Returns (Some (ErrorString ''timeout''))"
  by (simp add: Resolve_def recorder_simps abc_simps abc_lookup_def Name_def web_def)

text \<open>
  C6.  Take a Collect on a resolved Service, let \<open>s1\<close> and \<open>w1\<close> be the Service and
  the world at the capture step (after lines 125 to 134), with status Up, and let the
  capture of the metrics fail.  When the probe \<^verbatim>\<open>syscall.Kill(pid, 0)\<close> fails (the
  process is gone), the capture step is the Transition with \<open>ProcessStatus{0, Down}\<close>
  after the Info line: the Service ends Down with pid 0, the handler is triggered exactly
  once, with ProcessDoesNotExist, and then the callback runs.  When the probe succeeds
  (the process is alive), the Service is unchanged and the capture step only logs a
  warning: no Trigger is called.
\<close>

theorem Collect_capture_fails:
  assumes "Manager svc = Some m"
    and "Collect_lookup x m svc w = (s1, w1)"
    and "Status (Process s1) = Up"
    and "Capture x s1 ''/proc'' w1 = (Some merr, w2)"
  shows "(Kill x (Pid (Process s1)) 0 w2 = (Some err, w3) \<longrightarrow>
            Collect_capture x s1 w1 =
              Transition s1 \<lparr>Pid = 0, Status = Down\<rparr> (emit x)
                (Info x ''Service %s with process %d does not exist: %s''
                   [ArgString (Name s1), ArgInt (Pid (Process s1)), ArgError err] w3)
            \<and> Service_Collect x svc cb w =
                (s1\<lparr>Process := \<lparr>Pid = 0, Status = Down\<rparr>\<rparr>,
                 cb (CService (s1\<lparr>Process := \<lparr>Pid = 0, Status = Down\<rparr>\<rparr>))
                   (Trigger x (EventHandler s1)
                      (Event ProcessDoesNotExist
                         (CService (s1\<lparr>Process := \<lparr>Pid = 0, Status = Down\<rparr>\<rparr>)) None)
                      (Info x ''Service %s with process %d does not exist: %s''
                         [ArgString (Name s1), ArgInt (Pid (Process s1)), ArgError err] w3))))
         \<and> (Kill x (Pid (Process s1)) 0 w2 = (None, w3) \<longrightarrow>
              Collect_capture x s1 w1 =
                (s1, Warn x ''Error capturing metrics for process %d: %s''
                       [ArgInt (Pid (Process s1)), ArgError merr] w3)
              \<and> Service_Collect x svc cb w =
                  (s1, cb (CService s1)
                         (Warn x ''Error capturing metrics for process %d: %s''
                            [ArgInt (Pid (Process s1)), ArgError merr] w3)))"
  using assms
  by (simp add: Collect_set Collect_capture_def Transition_def Let_def emit_def)

text \<open>
  In the recording world the capture always fails; the process 500 is gone and the
  process 77 is alive.
\<close>

theorem Collect_capture_fails_witness:
  "Manager up500 = Some 3
   \<and> Collect_lookup (recorder abc) 3 up500 [] = (up500, [])
   \<and> Status (Process up500) = Up
   \<and> Capture (recorder abc) up500 ''/proc'' [] =
       (Some (ErrorString ''no such process''), [CollectProcessCall NewProcessStore ''/proc'' 500])
   \<and> Kill (recorder abc) (Pid (Process up500)) 0 [CollectProcessCall NewProcessStore ''/proc'' 500] =
       (Some (ErrorString ''ESRCH''),
        [CollectProcessCall NewProcessStore ''/proc'' 500, KillCall 500 0])
   \<and> Service_Collect (recorder abc) up500 callback [] =
       (up500\<lparr>Process := \<lparr>Pid = 0, Status = Down\<rparr>\<rparr>,
        [CollectProcessCall NewProcessStore ''/proc'' 500, KillCall 500 0,
         InfoCall ''Service %s with process %d does not exist: %s''
           [ArgString ''web'', ArgInt 500, ArgError (ErrorString ''ESRCH'')],
         TriggerCall 9 (Event ProcessDoesNotExist
           (CService (up500\<lparr>Process := \<lparr>Pid = 0, Status = Down\<rparr>\<rparr>)) None),
         CallbackCall (CService (up500\<lparr>Process := \<lparr>Pid = 0, Status = Down\<rparr>\<rparr>))])
   \<and> Manager up77 = Some 3
   \<and> Collect_lookup (recorder abc) 3 up77 [] = (up77, [])
   \<and> Status (Process up77) = Up
   \<and> Capture (recorder abc) up77 ''/proc'' [] =
       (Some (ErrorString ''no such process''), [CollectProcessCall NewProcessStore ''/proc'' 77])
   \<and> Kill (recorder abc) (Pid (Process up77)) 0 [CollectProcessCall NewProcessStore ''/proc'' 77] =
       (None, [CollectProcessCall NewProcessStore ''/proc'' 77, KillCall 77 0])
   \<and> Service_Collect (recorder abc) up77 callback [] =
       (up77,
        [CollectProcessCall NewProcessStore ''/proc'' 77, KillCall 77 0,
         WarnCall ''Error capturing metrics for process %d: %s''
           [ArgInt 77, ArgError (ErrorString ''no such process'')],
         CallbackCall (CService up77)])"
proof -
  let ?c500 = "[CollectProcessCall NewProcessStore ''/proc'' 500]"
  let ?c77 = "[CollectProcessCall NewProcessStore ''/proc'' 77]"
  have m: "Manager up500 = Some 3" "Manager up77 = Some 3"
    by (simp_all add: up500_def up77_def)
  have l: "Collect_lookup (recorder abc) 3 up500 [] = (up500, [])"
    "Collect_lookup (recorder abc) 3 up77 [] = (up77, [])"
    by (simp_all add: Collect_lookup_def up500_def up77_def)
  have u: "Status (Process up500) = Up" "Status (Process up77) = Up"
    by (simp_all add: up500_def up77_def)
  have c: "Capture (recorder abc) up500 ''/proc'' [] = (Some (ErrorString ''no such process''), ?c500)"
    "Capture (recorder abc) up77 ''/proc'' [] = (Some (ErrorString ''no such process''), ?c77)"
    by (simp_all add: Capture_def recorder_simps abc_simps Metrics_def up500_def up77_def
          web_def)
  have k: "Kill (recorder abc) (Pid (Process up500)) 0 ?c500 =
       (Some (ErrorString ''ESRCH''), ?c500 @ [KillCall 500 0])"
    "Kill (recorder abc) (Pid (Process up77)) 0 ?c77 = (None, ?c77 @ [KillCall 77 0])"
    by (simp_all add: recorder_simps abc_simps up500_def up77_def)
  from Collect_capture_fails [OF m(1) l(1) u(1) c(1), of "ErrorString ''ESRCH''"
      "?c500 @ [KillCall 500 0]" callback]
    Collect_capture_fails [OF m(2) l(2) u(2) c(2), of "ErrorString ''ESRCH''"
      "?c77 @ [KillCall 77 0]" callback]
    m l u c k
  show ?thesis
    by (simp add: recorder_simps callback_def Name_def up500_def up77_def web_def)
qed

text \<open>
  C7.  In the recording world, whatever the rules answer: Verify returns exactly the
  Events the rules yield, in rule order, and the calls it makes are, rule by rule in
  rule order, the Check of the rule followed, when the rule yields an Event, by the
  Trigger of each Action of the rule with that Event, in the order of the rule's Actions
  (\<open>rule_calls\<close>); a rule that yields no Event triggers nothing.
\<close>

theorem Verify_events_and_actions:
  "Verify (recorder a) e t =
     (List.map_filter (check_answer a) (Rules e), t @ concat (map (rule_calls a) (Rules e)))"
  by (simp add: Verify_def Verify_loop_recorder)

text \<open>
  The example of the spec: of three rules only the second yields an Event; one Event is
  returned and exactly the second rule's Actions are triggered, in their order (21, 20).
\<close>

theorem Verify_events_and_actions_witness:
  "Verify (recorder abc) (NewHost\<lparr>rules := three_rules\<rparr>) [] =
     ([Event ProcessExists (CHost NewHost) (Some \<lparr>rule_id = 2, Actions = [21, 20]\<rparr>)],
      [CheckCall \<lparr>rule_id = 1, Actions = [10, 11]\<rparr>,
       CheckCall \<lparr>rule_id = 2, Actions = [21, 20]\<rparr>,
       TriggerCall 21 (Event ProcessExists (CHost NewHost) (Some \<lparr>rule_id = 2, Actions = [21, 20]\<rparr>)),
       TriggerCall 20 (Event ProcessExists (CHost NewHost) (Some \<lparr>rule_id = 2, Actions = [21, 20]\<rparr>)),
       CheckCall \<lparr>rule_id = 3, Actions = [30]\<rparr>])"
  using Verify_events_and_actions [of abc "NewHost\<lparr>rules := three_rules\<rparr>" "[]"]
  by (simp add: Rules_def three_rules_def rule_calls_def abc_simps List.map_filter_simps)

text \<open>
  C8.  Restart returns nil, with pid 0 and status Starting, for every Service, world and
  behaviour of the collaborators; the rest of the Service is unchanged, and the world
  changes by the \<^verbatim>\<open>go\<close> statement only: no Trigger, no lookup, no restart call runs
  in the synchronous part.  In the recording world the only call recorded is the spawn,
  whatever the Manager's restart operation would answer.
\<close>

theorem Restart_synchronous:
  "Restart x s w =
     (None, s\<lparr>Process := \<lparr>Pid = 0, Status = Starting\<rparr>\<rparr>, Spawn x (restart_task x) w)
   \<and> Restart (recorder a) s t =
       (None, s\<lparr>Process := \<lparr>Pid = 0, Status = Starting\<rparr>\<rparr>, t @ [GoCall])"
  by (simp add: Restart_def Let_def recorder_simps)

text \<open>A Restart whose Manager restart would succeed, and one whose would fail.\<close>

theorem Restart_synchronous_witness:
  "Restart (recorder abc) up77 [] =
     (None, up77\<lparr>Process := \<lparr>Pid = 0, Status = Starting\<rparr>\<rparr>, [GoCall])
   \<and> Restart (recorder (abc\<lparr>restart_answer := \<lambda>sm n. Some (ErrorString ''failed'')\<rparr>)) up77 [] =
     (None, up77\<lparr>Process := \<lparr>Pid = 0, Status = Starting\<rparr>\<rparr>, [GoCall])"
  using Restart_synchronous [of "recorder abc" up77 "[]" abc "[]"]
    Restart_synchronous [of "recorder abc" up77 "[]"
      "abc\<lparr>restart_answer := \<lambda>sm n. Some (ErrorString ''failed'')\<rparr>" "[]"]
  by simp

text \<open>
  C9, as amended.  No sequence of Collect, Transition, Restart, the goroutine of Restart
  and Verify changes Manager.  Resolve changes Manager only when the lookup of an init
  system of its list succeeds, after the entries before it were passed over, and then
  binds Manager to that init system, also when Manager was set before.
\<close>

theorem Manager_kept_but_by_Resolve:
  "Manager (fst (run_operations x ops svc w)) = Manager svc
   \<and> (Manager (fst (snd (Resolve x svc mgrs w))) \<noteq> Manager svc \<longrightarrow>
        (\<exists>pre sm post w1 ps w2.
           mgrs = pre @ Some sm # post \<and> Resolve_skips x (Name svc) pre w = Some w1 \<and>
           LookupService x sm (Name svc) w1 = (Inr ps, w2) \<and>
           Manager (fst (snd (Resolve x svc mgrs w))) = Some sm))"
proof -
  have ops: "Manager (fst (run_operations x ops svc w)) = Manager svc"
    by (rule run_operations_Manager)
  have res: "\<exists>pre sm post w1 ps w2.
           mgrs = pre @ Some sm # post \<and> Resolve_skips x (Name svc) pre w = Some w1 \<and>
           LookupService x sm (Name svc) w1 = (Inr ps, w2) \<and>
           Manager (fst (snd (Resolve x svc mgrs w))) = Some sm"
    if ne: "Manager (fst (snd (Resolve x svc mgrs w))) \<noteq> Manager svc"
  proof -
    obtain l s1 w1 where loop: "Resolve_loop x svc mgrs w = (l, s1, w1)"
      by (cases "Resolve_loop x svc mgrs w")
    have s1: "fst (snd (Resolve x svc mgrs w)) = s1"
      using loop by (simp add: Resolve_def split: option.splits)
    with ne have "s1 \<noteq> svc" by auto
    with Resolve_loop_Manager [OF loop] obtain pre sm post w1' ps w2 where
      "mgrs = pre @ Some sm # post" "Resolve_skips x (Name svc) pre w = Some w1'"
      "LookupService x sm (Name svc) w1' = (Inr ps, w2)" "Manager s1 = Some sm"
      by blast
    with s1 show ?thesis by metis
  qed
  from ops res show ?thesis by blast
qed

text \<open>
  A Service bound to init system 3: a cycle of operations keeps it bound; a Resolve over
  the init systems 1 and 2 rebinds it to 2; a Resolve that finds nothing keeps it bound.
\<close>

theorem Manager_kept_but_by_Resolve_witness:
  "Manager up77 = Some 3
   \<and> Manager (fst (run_operations (recorder abc) one_cycle up77 [])) = Some 3
   \<and> Manager (fst (snd (Resolve (recorder abc) up77 [Some 1, Some 2] []))) \<noteq> Manager up77
   \<and> Resolve_skips (recorder abc) (Name up77) [Some 1] [] =
       Some [LookupServiceCall 1 ''web'', DebugCall ''upstart doesn't have web'' []]
   \<and> fst (LookupService (recorder abc) 2 (Name up77)
        [LookupServiceCall 1 ''web'', DebugCall ''upstart doesn't have web'' []]) =
       Inr \<lparr>Pid = 4242, Status = Down\<rparr>
   \<and> Manager (fst (snd (Resolve (recorder abc) up77 [Some 1, Some 2] []))) = Some 2
   \<and> Manager (fst (snd (Resolve (recorder abc) up77 [Some 1, None] []))) = Some 3"
proof -
  have "Manager up77 = Some 3"
    by (simp add: up77_def)
  moreover have "Manager (fst (snd (Resolve (recorder abc) up77 [Some 1, Some 2] []))) = Some 2"
    by (simp add: Resolve_def recorder_simps abc_simps abc_lookup_def Name_def up77_def
          web_def Let_def case_prod_beta Transition_Manager)
  moreover have "Manager (fst (snd (Resolve (recorder abc) up77 [Some 1, None] []))) = Some 3"
    by (simp add: Resolve_def recorder_simps abc_simps abc_lookup_def Name_def up77_def
          web_def)
  moreover have "Resolve_skips (recorder abc) (Name up77) [Some 1] [] =
       Some [LookupServiceCall 1 ''web'', DebugCall ''upstart doesn't have web'' []]"
    by (simp add: recorder_simps abc_simps abc_lookup_def Name_def up77_def web_def)
  moreover have "fst (LookupService (recorder abc) 2 (Name up77)
        [LookupServiceCall 1 ''web'', DebugCall ''upstart doesn't have web'' []]) =
       Inr \<lparr>Pid = 4242, Status = Down\<rparr>"
    by (simp add: recorder_simps abc_simps abc_lookup_def)
  ultimately show ?thesis
    using Manager_kept_but_by_Resolve [of "recorder abc" one_cycle up77 "[]" "[Some 1, Some 2]"]
    by simp
qed

text \<open>
  C9 as stated fails: the assignment of Manager in Resolve is not guarded.  A Service
  that Resolve bound to init system 3 is bound to init system 2 after a second Resolve
  over the init systems 1 and 2.
\<close>

theorem Resolve_rebinds_counterexample:
  "Manager (fst (snd (Resolve (recorder abc) web [Some 3] []))) = Some 3
   \<and> Manager (fst (snd (Resolve (recorder abc)
        (fst (snd (Resolve (recorder abc) web [Some 3] [])))
        [Some 1, Some 2] []))) = Some 2"
  by (simp add: Resolve_def recorder_simps abc_simps abc_lookup_def Name_def
        web_def Let_def case_prod_beta Transition_Manager Transition_def)

text \<open>
  C10.  With a nil parameters map, Parameter and Owner give the empty string; with a map
  that lacks the key, so does Parameter, and so does Owner when the map lacks "owner".
  NewHost has no parameters, and its Owner is the empty string.
\<close>

theorem Parameter_total:
  "(parameters e = None \<longrightarrow> Parameter e key = '''' \<and> Owner e = '''')
   \<and> (\<forall>m. parameters e = Some m \<and> m key = None \<longrightarrow> Parameter e key = '''')
   \<and> (\<forall>m. parameters e = Some m \<and> m ''owner'' = None \<longrightarrow> Owner e = '''')
   \<and> parameters NewHost = None
   \<and> Owner NewHost = ''''"
  by (simp add: Parameter_def Owner_def NewHost_def)

text \<open>The new Host, and a Host with one parameter that is not the owner.\<close>

theorem Parameter_total_witness:
  "parameters NewHost = None \<and> Parameter NewHost ''group'' = '''' \<and> Owner NewHost = ''''
   \<and> parameters (NewHost\<lparr>parameters := Some [''group'' \<mapsto> ''ops'']\<rparr>) = Some [''group'' \<mapsto> ''ops'']
   \<and> [''group'' \<mapsto> ''ops''] ''owner'' = None
   \<and> Owner (NewHost\<lparr>parameters := Some [''group'' \<mapsto> ''ops'']\<rparr>) = ''''
   \<and> Parameter (NewHost\<lparr>parameters := Some [''group'' \<mapsto> ''ops'']\<rparr>) ''group'' = ''ops''"
  using Parameter_total [of NewHost "''group''"]
    Parameter_total [of "NewHost\<lparr>parameters := Some [''group'' \<mapsto> ''ops'']\<rparr>" "''owner''"]
  by (simp add: NewHost_def Parameter_def Owner_def)

end
